theory Spec2Isabelle
  imports Main "HOL-Library.AList" "HOL-Library.Char_ord" "HOL-Library.List_Lexorder"
begin

section \<open>Python values, exceptions and the module protocol\<close>

text \<open>
  The two Ansible modules \<^verbatim>\<open>library/conrep.py\<close> and \<^verbatim>\<open>library/hprcu.py\<close> are embedded
  as pure functions. A Python value that is a \<^verbatim>\<open>str\<close> or \<^verbatim>\<open>None\<close> (an element's text, the
  result of \<^verbatim>\<open>Element.get\<close>, a setting's value) is a \<open>string option\<close>. A \<^verbatim>\<open>dict\<close> is an
  association list in insertion order whose keys are pairwise distinct;
  \<^verbatim>\<open>h[k] = v\<close> is \<open>AList.update k v h\<close> (an existing key keeps its place, a new one is
  appended), \<^verbatim>\<open>k in h\<close> is \<open>k \<in> fst ` set h\<close> and \<^verbatim>\<open>h[k]\<close> is \<open>map_of h k\<close>, raising
  \<^verbatim>\<open>KeyError\<close> on \<open>None\<close>.
\<close>

type_synonym ('k, 'v) dict = "('k \<times> 'v) list"

datatype exn =
    ConrepError string
  | HprcuError string
  | NameError string
  | AttributeError string
  | KeyError string
  | OtherError string

text \<open>\<^verbatim>\<open>'{}'.format(v)\<close> for a value that is a \<^verbatim>\<open>str\<close> or \<^verbatim>\<open>None\<close>.\<close>

definition str_of :: "string option \<Rightarrow> string" where
  "str_of v = (case v of None \<Rightarrow> ''None'' | Some s \<Rightarrow> s)"

text \<open>\<^verbatim>\<open>'{}'.format(n)\<close> for an integer: decimal digits, with a minus sign.\<close>

fun str_nat :: "nat \<Rightarrow> string" where
  "str_nat n =
     (if n < 10 then [char_of (48 + n)]
      else str_nat (n div 10) @ [char_of (48 + n mod 10)])"

definition str_int :: "int \<Rightarrow> string" where
  "str_int i = (if i < 0 then CHR ''-'' # str_nat (nat (- i)) else str_nat (nat i))"

text \<open>\<^verbatim>\<open>sep.join(xs)\<close>.\<close>

fun join :: "string \<Rightarrow> string list \<Rightarrow> string" where
  "join sep [] = []"
| "join sep [x] = x"
| "join sep (x # y # ys) = x @ sep @ join sep (y # ys)"

text \<open>
  The parameters of a module run: the \<^verbatim>\<open>settings\<close>, \<^verbatim>\<open>settings_xml\<close> and \<^verbatim>\<open>facts\<close>
  options, and the framework's \<^verbatim>\<open>module.check_mode\<close>, \<^verbatim>\<open>module._diff\<close> and
  \<^verbatim>\<open>module._verbosity\<close>. The executable's path and the hardware definition file only
  appear in the backend's command line and are left out. Setting values are taken
  to be strings or \<^verbatim>\<open>None\<close>.
\<close>

record params =
  settings :: "(string, string option) dict"
  settings_xml :: string
  facts :: bool
  check_mode :: bool
  diff_mode :: bool
  verbosity :: int

text \<open>
  The \<^verbatim>\<open>result\<close> dictionary: \<^verbatim>\<open>changed\<close>, the entry of \<^verbatim>\<open>ansible_facts\<close> under the
  backend's name (absent when no facts were stored), \<^verbatim>\<open>diff\<close> as the pair
  (before, after) and \<^verbatim>\<open>debug\<close>.
\<close>

record 'f result =
  changed :: bool
  ansible_facts :: "'f option"
  diff :: "(string \<times> string) option"
  debug :: "string option"

definition result0 :: "'f result" where
  "result0 = \<lparr>changed = False, ansible_facts = None, diff = None, debug = None\<rparr>"

text \<open>
  How a run ends: \<^verbatim>\<open>module.exit_json(**result)\<close>, \<^verbatim>\<open>module.fail_json(msg, **result)\<close>,
  or an exception that the \<^verbatim>\<open>except\<close> clause does not catch. A run also leaves the
  list of backend invocations it made: \<open>Save\<close> is the dump command (\<^verbatim>\<open>-s\<close>), \<open>Load c\<close>
  the load command (\<^verbatim>\<open>-l\<close>) on a scratch file of content \<open>c\<close>.
\<close>

datatype 'f outcome = ExitJson "'f result" | FailJson string "'f result" | Raised exn

datatype call = Save | Load string

fun is_load :: "call \<Rightarrow> bool" where
  "is_load (Load c) = True"
| "is_load Save = False"

section \<open>The flat adapter: conrep.py\<close>

text \<open>
  The backend as the module sees it: the exit status, standard output and standard
  error of the dump command, what \<^verbatim>\<open>parse_dat_from_filename\<close> makes of the scratch file
  the dump wrote, what \<^verbatim>\<open>parse_dat_from_string\<close> makes of a text, and the exit status
  and output of the load command on a scratch file of a given content.
\<close>

record conrep_backend =
  conrep_save :: "int \<times> string \<times> string"
  conrep_dump :: "exn + (string, string option) dict"
  conrep_parse :: "string \<Rightarrow> exn + (string, string option) dict"
  conrep_load :: "string \<Rightarrow> int \<times> string \<times> string"

definition call_conrep :: "int \<times> string \<times> string \<Rightarrow> exn + unit" where
  "call_conrep r =
     (case r of (rc, out, err) \<Rightarrow>
        if rc \<noteq> 0
        then Inl (ConrepError (''Conrep failed (rc='' @ str_int rc @ ''): '' @ out @ '' '' @ err))
        else Inr ())"

definition conrep_read_settings ::
  "conrep_backend \<Rightarrow> (exn + (string, string option) dict) \<times> call list" where
  "conrep_read_settings b =
     (case call_conrep (conrep_save b) of
        Inl e \<Rightarrow> (Inl e, [Save])
      | Inr u \<Rightarrow> (conrep_dump b, [Save]))"

definition section_line :: "string \<times> string option \<Rightarrow> string" where
  "section_line kv =
     ''<Section name='' @ [CHR 0x22] @ fst kv @ [CHR 0x22] @ ''>'' @ str_of (snd kv)
       @ ''</Section>'' @ [CHR 0x0A]"

definition conrep_dat :: "(string, string option) dict \<Rightarrow> string" where
  "conrep_dat s =
     ''<Conrep>'' @ [CHR 0x0A] @ concat (map section_line s) @ ''</Conrep>'' @ [CHR 0x0A]"

text \<open>
  \<^verbatim>\<open>write_settings\<close>: the scratch file is written in any case; the load command runs
  only when not in check mode; the file's text is returned when \<open>debug\<close> is set.
\<close>

definition conrep_write_settings ::
  "conrep_backend \<Rightarrow> (string, string option) dict \<Rightarrow> bool \<Rightarrow> bool
     \<Rightarrow> (exn + string option) \<times> call list" where
  "conrep_write_settings b s check dbg =
     (let f = conrep_dat s in
      if \<not> check then
        (case call_conrep (conrep_load b f) of
           Inl e \<Rightarrow> (Inl e, [Load f])
         | Inr u \<Rightarrow> (Inr (if dbg then Some f else None), [Load f]))
      else (Inr (if dbg then Some f else None), []))"

definition unknown_setting_msg :: "string \<Rightarrow> string option \<Rightarrow> string" where
  "unknown_setting_msg k v =
     ''Setting '' @ [CHR 0x27] @ k @ [CHR 0x27] @ '' (value: '' @ str_of v @ '') isn''
       @ [CHR 0x27] @ ''t known by conrep - perhaps you need a special hardware ''
       @ ''definition file?''"

fun check_settings ::
  "(string, string option) dict \<Rightarrow> (string, string option) dict \<Rightarrow> exn + unit" where
  "check_settings old_settings [] = Inr ()"
| "check_settings old_settings ((k, v) # rest) =
     (if k \<notin> fst ` set old_settings then Inl (ConrepError (unknown_setting_msg k v))
      else check_settings old_settings rest)"

text \<open>The loop of \<^verbatim>\<open>filter_changed_settings\<close>, with the dictionary \<open>h\<close> built so far.\<close>

fun filter_changed_loop ::
  "(string, string option) dict \<Rightarrow> (string, string option) dict
     \<Rightarrow> (string, string option) dict \<Rightarrow> exn + (string, string option) dict" where
  "filter_changed_loop old_settings [] h = Inr h"
| "filter_changed_loop old_settings ((k, v) # rest) h =
     (case map_of old_settings k of
        None \<Rightarrow> Inl (KeyError k)
      | Some ov \<Rightarrow>
          if v \<noteq> ov then filter_changed_loop old_settings rest (AList.update k v h)
          else filter_changed_loop old_settings rest h)"

definition filter_changed_settings ::
  "(string, string option) dict \<Rightarrow> (string, string option) dict
     \<Rightarrow> exn + (string, string option) dict" where
  "filter_changed_settings old_settings s = filter_changed_loop old_settings s []"

text \<open>
  The loop of \<^verbatim>\<open>diff_settings\<close> over the items sorted by key, with the two lists of
  lines built so far.
\<close>

fun diff_loop ::
  "(string, string option) dict \<Rightarrow> (string, string option) dict \<Rightarrow> string list
     \<Rightarrow> string list \<Rightarrow> exn + (string list \<times> string list)" where
  "diff_loop old_settings [] before_lines after_lines = Inr (before_lines, after_lines)"
| "diff_loop old_settings ((k, v) # rest) before_lines after_lines =
     (case map_of old_settings k of
        None \<Rightarrow> Inl (KeyError k)
      | Some ov \<Rightarrow>
          diff_loop old_settings rest (before_lines @ [k @ '' => '' @ str_of ov])
            (after_lines @ [k @ '' => '' @ str_of v]))"

definition diff_settings ::
  "(string, string option) dict \<Rightarrow> (string, string option) dict
     \<Rightarrow> exn + (string \<times> string)" where
  "diff_settings old_settings s =
     (case diff_loop old_settings (sort_key fst s) [] [] of
        Inl e \<Rightarrow> Inl e
      | Inr (before_lines, after_lines) \<Rightarrow>
          Inr (join [CHR 0x0A] (before_lines @ ['''']), join [CHR 0x0A] (after_lines @ [''''])))"

text \<open>\<^verbatim>\<open>merge_dicts\<close>: a copy of \<open>xs\<close> updated with every item of \<open>ys\<close>, in order.\<close>

definition merge_dicts :: "('k, 'v) dict \<Rightarrow> ('k, 'v) dict \<Rightarrow> ('k, 'v) dict" where
  "merge_dicts xs ys = fold (\<lambda>kv r. AList.update (fst kv) (snd kv) r) ys xs"

text \<open>
  The \<^verbatim>\<open>except ConrepError\<close> clause: a \<open>ConrepError\<close> ends the run with \<^verbatim>\<open>fail_json\<close> and
  the result as it stands; any other exception leaves \<^verbatim>\<open>run_module\<close>.
\<close>

definition conrep_fail ::
  "exn \<Rightarrow> 'f result \<Rightarrow> call list \<Rightarrow> 'f outcome \<times> call list" where
  "conrep_fail e res tr =
     (case e of ConrepError m \<Rightarrow> (FailJson m res, tr) | _ \<Rightarrow> (Raised e, tr))"

text \<open>\<^verbatim>\<open>run_module\<close> from the statement after the \<^verbatim>\<open>if settings:\<close> block on.\<close>

definition conrep_finish ::
  "params \<Rightarrow> (string, string option) dict \<Rightarrow> (string, string option) dict
     \<Rightarrow> (string, string option) dict result \<Rightarrow> call list
     \<Rightarrow> (string, string option) dict outcome \<times> call list" where
  "conrep_finish p old_settings s res tr =
     (if facts p
      then (ExitJson (res\<lparr>ansible_facts := Some (merge_dicts old_settings s)\<rparr>), tr)
      else (ExitJson res, tr))"

text \<open>\<^verbatim>\<open>run_module\<close> from the \<^verbatim>\<open>if settings:\<close> block on.\<close>

definition conrep_apply ::
  "conrep_backend \<Rightarrow> params \<Rightarrow> (string, string option) dict
     \<Rightarrow> (string, string option) dict \<Rightarrow> (string, string option) dict result \<Rightarrow> call list
     \<Rightarrow> (string, string option) dict outcome \<times> call list" where
  "conrep_apply b p old_settings s res tr =
     (if s \<noteq> [] then
        (case conrep_write_settings b s (check_mode p) (3 \<le> verbosity p) of
           (Inl e, tr') \<Rightarrow> conrep_fail e res (tr @ tr')
         | (Inr t, tr') \<Rightarrow>
             conrep_finish p old_settings s
               ((if 3 \<le> verbosity p
                 then res\<lparr>debug := Some (''generated conrep.dat: '' @ str_of t)\<rparr>
                 else res)\<lparr>changed := True\<rparr>)
               (tr @ tr'))
      else conrep_finish p old_settings s res tr)"

definition conrep_run_module ::
  "conrep_backend \<Rightarrow> params \<Rightarrow> (string, string option) dict outcome \<times> call list" where
  "conrep_run_module b p =
     (case (if settings_xml p \<noteq> [] then conrep_parse b (settings_xml p)
            else Inr (settings p)) of
        Inl e \<Rightarrow> conrep_fail e result0 []
      | Inr s \<Rightarrow>
          (case conrep_read_settings b of
             (Inl e, tr) \<Rightarrow> conrep_fail e result0 tr
           | (Inr old_settings, tr) \<Rightarrow>
               (case check_settings old_settings s of
                  Inl e \<Rightarrow> conrep_fail e result0 tr
                | Inr u \<Rightarrow>
                    (case filter_changed_settings old_settings s of
                       Inl e \<Rightarrow> conrep_fail e result0 tr
                     | Inr s' \<Rightarrow>
                         if diff_mode p then
                           (case diff_settings old_settings s' of
                              Inl e \<Rightarrow> conrep_fail e result0 tr
                            | Inr d \<Rightarrow>
                                conrep_apply b p old_settings s'
                                  (result0\<lparr>diff := Some d\<rparr>) tr)
                         else conrep_apply b p old_settings s' result0 tr))))"

section \<open>The structured adapter: hprcu.py\<close>

text \<open>
  An \<^verbatim>\<open>xml.etree.ElementTree.Element\<close>: its tag, its attribute dictionary, its text
  (\<^verbatim>\<open>None\<close> when empty) and its child elements. A document (an \<^verbatim>\<open>ElementTree\<close>) is its
  root element, \<^verbatim>\<open>doc.getroot()\<close>. An attribute's value is a string; \<^verbatim>\<open>Element.set\<close>
  stores whatever it is given, so the value \<^verbatim>\<open>None\<close> can be stored too.
\<close>

datatype element =
  Element (tag: string) (attrib: "(string, string option) dict") (text_of: "string option")
    (children: "element list")

text \<open>\<^verbatim>\<open>e.get(key)\<close>: the attribute's value, \<^verbatim>\<open>None\<close> when there is none.\<close>

definition el_get :: "element \<Rightarrow> string \<Rightarrow> string option" where
  "el_get e k = (case map_of (attrib e) k of None \<Rightarrow> None | Some v \<Rightarrow> v)"

text \<open>\<^verbatim>\<open>e.set(key, value)\<close>.\<close>

definition el_set :: "element \<Rightarrow> string \<Rightarrow> string option \<Rightarrow> element" where
  "el_set e k v = Element (tag e) (AList.update k v (attrib e)) (text_of e) (children e)"

text \<open>\<^verbatim>\<open>e.find(t)\<close> for a plain tag: the first child with that tag, or \<^verbatim>\<open>None\<close>.\<close>

definition el_find :: "element \<Rightarrow> string \<Rightarrow> element option" where
  "el_find e t = find (\<lambda>c. tag c = t) (children e)"

text \<open>
  \<^verbatim>\<open>e.find(t).text\<close>: reading \<^verbatim>\<open>.text\<close> of \<^verbatim>\<open>None\<close> raises \<^verbatim>\<open>AttributeError\<close> (the payload is
  the attribute's name).
\<close>

definition find_text :: "element \<Rightarrow> string \<Rightarrow> exn + string option" where
  "find_text e t =
     (case el_find e t of None \<Rightarrow> Inl (AttributeError ''text'') | Some c \<Rightarrow> Inr (text_of c))"

text \<open>
  \<^verbatim>\<open>e.find(t).text = v\<close> on a list of children: the first child with tag \<open>t\<close> gets the
  text \<open>v\<close>.
\<close>

fun set_first_text :: "string \<Rightarrow> string option \<Rightarrow> element list \<Rightarrow> element list" where
  "set_first_text t v [] = []"
| "set_first_text t v (c # cs) =
     (if tag c = t then Element (tag c) (attrib c) v (children c) # cs
      else c # set_first_text t v cs)"

text \<open>
  What the module uses of the backend and of the XML library: the exit status and
  output of the dump command, \<^verbatim>\<open>ET.parse\<close> of the scratch file the dump wrote,
  \<^verbatim>\<open>ET.fromstring\<close>, \<^verbatim>\<open>ET.tostring\<close> of an element, the text \<^verbatim>\<open>ElementTree.write\<close> produces,
  and the exit status and output of the load command on a scratch file of a given
  content. Parsing and serialising may raise.
\<close>

record hprcu_backend =
  hprcu_save :: "int \<times> string \<times> string"
  hprcu_dump :: "exn + element"
  hprcu_fromstring :: "string \<Rightarrow> exn + element"
  et_tostring :: "element \<Rightarrow> exn + string"
  doc_write :: "element \<Rightarrow> exn + string"
  hprcu_load :: "string \<Rightarrow> int \<times> string \<times> string"

text \<open>\<^verbatim>\<open>doc2string(d)\<close>; \<open>d\<close> may be \<^verbatim>\<open>None\<close>, which has no \<^verbatim>\<open>write\<close>.\<close>

definition doc2string :: "hprcu_backend \<Rightarrow> element option \<Rightarrow> exn + string" where
  "doc2string b d =
     (case d of None \<Rightarrow> Inl (AttributeError ''write'') | Some e \<Rightarrow> doc_write b e)"

text \<open>
  The list comprehension of \<^verbatim>\<open>apply_settings\<close>: the \<^verbatim>\<open>option_id\<close> of every child with tag
  \<^verbatim>\<open>option\<close> whose \<^verbatim>\<open>option_name\<close> text equals \<open>v\<close>.
\<close>

fun option_ids :: "element list \<Rightarrow> string option \<Rightarrow> exn + string option list" where
  "option_ids [] v = Inr []"
| "option_ids (c # cs) v =
     (if tag c = ''option'' then
        (case find_text c ''option_name'' of
           Inl e \<Rightarrow> Inl e
         | Inr t \<Rightarrow>
             (case option_ids cs v of
                Inl e \<Rightarrow> Inl e
              | Inr ids \<Rightarrow> Inr (if t = v then el_get c ''option_id'' # ids else ids)))
      else option_ids cs v)"

text \<open>
  One round of the loop of \<^verbatim>\<open>apply_settings\<close> on the child \<open>f\<close> of the root, from the
  values of \<^verbatim>\<open>changed\<close> and \<^verbatim>\<open>seen\<close> before it to their values and the child after it.
  The set \<^verbatim>\<open>seen\<close> is a list without repetitions. The two \<^verbatim>\<open>raise\<close> statements name
  \<^verbatim>\<open>HprcuErrror\<close> and \<^verbatim>\<open>n\<close>, which are not defined: evaluating them raises \<^verbatim>\<open>NameError\<close>
  (the payload is the undefined name).
\<close>

definition apply_feature ::
  "hprcu_backend \<Rightarrow> (string, string option) dict \<Rightarrow> element \<Rightarrow> bool \<Rightarrow> string list
     \<Rightarrow> exn + (bool \<times> string list \<times> element)" where
  "apply_feature b h f changed_so_far seen =
     (if tag f \<noteq> ''feature'' then Inr (changed_so_far, seen, f)
      else
        (case find_text f ''feature_name'' of
           Inl e \<Rightarrow> Inl e
         | Inr None \<Rightarrow> Inr (changed_so_far, seen, f)
         | Inr (Some name) \<Rightarrow>
             (case map_of h name of
                None \<Rightarrow> Inr (changed_so_far, seen, f)
              | Some v \<Rightarrow>
                  if el_get f ''feature_type'' = Some ''option'' then
                    (case option_ids (children f) v of
                       Inl e \<Rightarrow> Inl e
                     | Inr [] \<Rightarrow>
                         (case et_tostring b f of
                            Inl e \<Rightarrow> Inl e
                          | Inr x \<Rightarrow> Inl (NameError ''HprcuErrror''))
                     | Inr (oid # oids) \<Rightarrow>
                         Inr (changed_so_far \<or> el_get f ''selected_option_id'' \<noteq> oid,
                              List.insert name seen,
                              el_set f ''selected_option_id'' oid))
                  else if el_get f ''feature_type'' = Some ''string'' then
                    (case el_find f ''feature_value'' of
                       None \<Rightarrow> Inl (AttributeError ''text'')
                     | Some fv \<Rightarrow>
                         Inr (changed_so_far \<or> text_of fv \<noteq> v,
                              List.insert name seen,
                              Element (tag f) (attrib f) (text_of f)
                                (set_first_text ''feature_value'' v (children f))))
                  else Inl (NameError ''n''))))"

text \<open>
  The loop of \<^verbatim>\<open>apply_settings\<close> over the children of the root. It returns the children
  as the loop leaves them, also when an exception ends it.
\<close>

fun apply_loop ::
  "hprcu_backend \<Rightarrow> (string, string option) dict \<Rightarrow> element list \<Rightarrow> bool \<Rightarrow> string list
     \<Rightarrow> (exn + (bool \<times> string list)) \<times> element list" where
  "apply_loop b h [] changed_so_far seen = (Inr (changed_so_far, seen), [])"
| "apply_loop b h (f # fs) changed_so_far seen =
     (case apply_feature b h f changed_so_far seen of
        Inl e \<Rightarrow> (Inl e, f # fs)
      | Inr (c, s, f') \<Rightarrow>
          (case apply_loop b h fs c s of (r, fs') \<Rightarrow> (r, f' # fs')))"

definition unknown_features_msg :: "string list \<Rightarrow> string" where
  "unknown_features_msg xs = ''Some features are unknown to this hprcu: '' @ join '', '' xs"

text \<open>
  \<^verbatim>\<open>apply_settings(doc, h)\<close> edits \<open>doc\<close> in place: the model returns what the call
  returns or raises, and the document as the call leaves it.
\<close>

definition apply_settings ::
  "hprcu_backend \<Rightarrow> element \<Rightarrow> (string, string option) dict \<Rightarrow> (exn + bool) \<times> element" where
  "apply_settings b doc h =
     (case apply_loop b h (children doc) False [] of
        (Inl e, fs) \<Rightarrow> (Inl e, Element (tag doc) (attrib doc) (text_of doc) fs)
      | (Inr (c, seen), fs) \<Rightarrow>
          (if length seen \<noteq> length h
           then Inl (HprcuError (unknown_features_msg [x \<leftarrow> map fst h. x \<notin> set seen]))
           else Inr c,
           Element (tag doc) (attrib doc) (text_of doc) fs))"

text \<open>The loop of \<^verbatim>\<open>doc2dict\<close>, with the dictionary \<open>h\<close> built so far.\<close>

fun doc2dict_loop ::
  "element list \<Rightarrow> (string option, string option) dict
     \<Rightarrow> exn + (string option, string option) dict" where
  "doc2dict_loop [] h = Inr h"
| "doc2dict_loop (f # fs) h =
     (if tag f \<noteq> ''feature'' then doc2dict_loop fs h
      else if el_get f ''feature_type'' = Some ''option'' then
        doc2dict_loop fs
          (AList.update (el_get f ''feature_id'') (el_get f ''selected_option_id'') h)
      else if el_get f ''feature_type'' = Some ''string'' then
        (case find_text f ''feature_value'' of
           Inl e \<Rightarrow> Inl e
         | Inr t \<Rightarrow> doc2dict_loop fs (AList.update (el_get f ''feature_id'') t h))
      else doc2dict_loop fs h)"

definition doc2dict :: "element \<Rightarrow> exn + (string option, string option) dict" where
  "doc2dict doc = doc2dict_loop (children doc) []"

text \<open>The loop of \<^verbatim>\<open>doc_yield_changes\<close> over the items of \<open>y\<close>.\<close>

fun yield_loop ::
  "(string option, string option) dict \<Rightarrow> (string option, string option) dict
     \<Rightarrow> exn + bool" where
  "yield_loop x [] = Inr False"
| "yield_loop x ((k, v) # rest) =
     (case map_of x k of
        None \<Rightarrow> Inl (HprcuError (''Feature '' @ str_of k @ '' not known by this hprcu''))
      | Some xv \<Rightarrow> if xv \<noteq> v then Inr True else yield_loop x rest)"

definition doc_yield_changes :: "element \<Rightarrow> element \<Rightarrow> exn + bool" where
  "doc_yield_changes old_doc doc =
     (case doc2dict old_doc of
        Inl e \<Rightarrow> Inl e
      | Inr x \<Rightarrow> (case doc2dict doc of Inl e \<Rightarrow> Inl e | Inr y \<Rightarrow> yield_loop x y))"

text \<open>
  \<^verbatim>\<open>f.find('option[@option_id="{}"]/option_name'.format(f.get('selected_option_id'))).text\<close>:
  the first \<^verbatim>\<open>option_name\<close> child of the \<^verbatim>\<open>option\<close> children whose \<^verbatim>\<open>option_id\<close> is the
  formatted selected id (taken to contain no double quote).
\<close>

definition selected_option_name :: "element \<Rightarrow> exn + string option" where
  "selected_option_name f =
     (case concat (map (\<lambda>c. filter (\<lambda>n. tag n = ''option_name'') (children c))
              (filter (\<lambda>c. tag c = ''option''
                  \<and> el_get c ''option_id'' = Some (str_of (el_get f ''selected_option_id'')))
                (children f))) of
        [] \<Rightarrow> Inl (AttributeError ''text'')
      | n # ns \<Rightarrow> Inr (text_of n))"

text \<open>The loop of \<^verbatim>\<open>doc2facts\<close>, with the dictionary \<open>h\<close> built so far.\<close>

fun doc2facts_loop ::
  "element list \<Rightarrow> (string option, string option) dict
     \<Rightarrow> exn + (string option, string option) dict" where
  "doc2facts_loop [] h = Inr h"
| "doc2facts_loop (f # fs) h =
     (if tag f \<noteq> ''feature'' then doc2facts_loop fs h
      else
        (case find_text f ''feature_name'' of
           Inl e \<Rightarrow> Inl e
         | Inr k \<Rightarrow>
             if el_get f ''feature_type'' = Some ''option'' then
               (case selected_option_name f of
                  Inl e \<Rightarrow> Inl e
                | Inr v \<Rightarrow> doc2facts_loop fs (AList.update k v h))
             else if el_get f ''feature_type'' = Some ''string'' then
               (case find_text f ''feature_value'' of
                  Inl e \<Rightarrow> Inl e
                | Inr v \<Rightarrow> doc2facts_loop fs (AList.update k v h))
             else doc2facts_loop fs h))"

definition doc2facts :: "element option \<Rightarrow> exn + (string option, string option) dict" where
  "doc2facts doc = (case doc of None \<Rightarrow> Inr [] | Some d \<Rightarrow> doc2facts_loop (children d) [])"

definition mk_diff ::
  "hprcu_backend \<Rightarrow> element \<Rightarrow> element option \<Rightarrow> exn + (string \<times> string)" where
  "mk_diff b old_doc doc =
     (case doc2string b (Some old_doc) of
        Inl e \<Rightarrow> Inl e
      | Inr before_text \<Rightarrow>
          (case doc2string b doc of
             Inl e \<Rightarrow> Inl e
           | Inr after_text \<Rightarrow> Inr (before_text, after_text)))"

definition call_hprcu :: "int \<times> string \<times> string \<Rightarrow> exn + unit" where
  "call_hprcu r =
     (case r of (rc, out, err) \<Rightarrow>
        if rc \<noteq> 0
        then Inl (HprcuError (''hprcu failed (rc='' @ str_int rc @ ''): '' @ out @ '' '' @ err))
        else Inr ())"

definition hprcu_read_settings :: "hprcu_backend \<Rightarrow> (exn + element) \<times> call list" where
  "hprcu_read_settings b =
     (case call_hprcu (hprcu_save b) of
        Inl e \<Rightarrow> (Inl e, [Save])
      | Inr u \<Rightarrow> (hprcu_dump b, [Save]))"

text \<open>
  \<^verbatim>\<open>write_settings\<close>: the document is written to the scratch file in any case; the
  load command runs only when not in check mode.
\<close>

definition hprcu_write_settings ::
  "hprcu_backend \<Rightarrow> element option \<Rightarrow> bool \<Rightarrow> (exn + unit) \<times> call list" where
  "hprcu_write_settings b doc check =
     (case doc2string b doc of
        Inl e \<Rightarrow> (Inl e, [])
      | Inr f \<Rightarrow>
          if \<not> check then (call_hprcu (hprcu_load b f), [Load f]) else (Inr (), []))"

text \<open>
  The \<^verbatim>\<open>except HprcuError\<close> clause: a \<open>HprcuError\<close> ends the run with \<^verbatim>\<open>fail_json\<close> and the
  result as it stands; any other exception leaves \<^verbatim>\<open>run_module\<close>.
\<close>

definition hprcu_fail ::
  "exn \<Rightarrow> 'f result \<Rightarrow> call list \<Rightarrow> 'f outcome \<times> call list" where
  "hprcu_fail e res tr =
     (case e of HprcuError m \<Rightarrow> (FailJson m res, tr) | _ \<Rightarrow> (Raised e, tr))"

text \<open>\<^verbatim>\<open>run_module\<close> from the statement after the \<^verbatim>\<open>if changed:\<close> block on.\<close>

definition hprcu_finish ::
  "params \<Rightarrow> element \<Rightarrow> element option \<Rightarrow> (string option, string option) dict result
     \<Rightarrow> call list \<Rightarrow> (string option, string option) dict outcome \<times> call list" where
  "hprcu_finish p old_doc doc res tr =
     (if facts p then
        (case doc2facts (case doc of None \<Rightarrow> Some old_doc | Some d \<Rightarrow> Some d) of
           Inl e \<Rightarrow> hprcu_fail e res tr
         | Inr f \<Rightarrow> (ExitJson (res\<lparr>ansible_facts := Some f\<rparr>), tr))
      else (ExitJson res, tr))"

text \<open>\<^verbatim>\<open>run_module\<close> from the \<^verbatim>\<open>if changed:\<close> block on.\<close>

definition hprcu_apply ::
  "hprcu_backend \<Rightarrow> params \<Rightarrow> element \<Rightarrow> element option \<Rightarrow> bool
     \<Rightarrow> (string option, string option) dict result \<Rightarrow> call list
     \<Rightarrow> (string option, string option) dict outcome \<times> call list" where
  "hprcu_apply b p old_doc doc c res tr =
     (if c then
        (case hprcu_write_settings b doc (check_mode p) of
           (Inl e, tr') \<Rightarrow> hprcu_fail e res (tr @ tr')
         | (Inr u, tr') \<Rightarrow>
             if 3 \<le> verbosity p then
               (case (case doc of None \<Rightarrow> Inr [] | Some d \<Rightarrow> doc2string b (Some d)) of
                  Inl e \<Rightarrow> hprcu_fail e res (tr @ tr')
                | Inr t \<Rightarrow>
                    hprcu_finish p old_doc doc
                      (res\<lparr>debug := Some (''new hprcu.xml: '' @ t), changed := True\<rparr>)
                      (tr @ tr'))
             else hprcu_finish p old_doc doc (res\<lparr>changed := True\<rparr>) (tr @ tr'))
      else hprcu_finish p old_doc doc res tr)"

text \<open>
  The first two \<^verbatim>\<open>if\<close> blocks of \<^verbatim>\<open>run_module\<close>: the values of \<^verbatim>\<open>changed\<close> and \<^verbatim>\<open>doc\<close> after
  them. \<^verbatim>\<open>apply_settings\<close> works on a deep copy of \<open>old_doc\<close>.
\<close>

definition hprcu_desired ::
  "hprcu_backend \<Rightarrow> params \<Rightarrow> element \<Rightarrow> exn + (bool \<times> element option)" where
  "hprcu_desired b p old_doc =
     (case (if settings p \<noteq> [] then
              (case apply_settings b old_doc (settings p) of
                 (Inl e, d) \<Rightarrow> Inl e
               | (Inr c, d) \<Rightarrow> Inr (c, Some d))
            else Inr (False, None)) of
        Inl e \<Rightarrow> Inl e
      | Inr (c, doc) \<Rightarrow>
          if settings_xml p \<noteq> [] then
            (case hprcu_fromstring b (settings_xml p) of
               Inl e \<Rightarrow> Inl e
             | Inr d \<Rightarrow>
                 (case doc_yield_changes old_doc d of
                    Inl e \<Rightarrow> Inl e
                  | Inr c' \<Rightarrow> Inr (c', Some d)))
          else Inr (c, doc))"

definition hprcu_run_module ::
  "hprcu_backend \<Rightarrow> params \<Rightarrow> (string option, string option) dict outcome \<times> call list" where
  "hprcu_run_module b p =
     (case hprcu_read_settings b of
        (Inl e, tr) \<Rightarrow> hprcu_fail e result0 tr
      | (Inr old_doc, tr) \<Rightarrow>
          (case hprcu_desired b p old_doc of
             Inl e \<Rightarrow> hprcu_fail e result0 tr
           | Inr (c, doc) \<Rightarrow>
               if diff_mode p then
                 (case mk_diff b old_doc doc of
                    Inl e \<Rightarrow> hprcu_fail e result0 tr
                  | Inr d \<Rightarrow> hprcu_apply b p old_doc doc c (result0\<lparr>diff := Some d\<rparr>) tr)
               else hprcu_apply b p old_doc doc c result0 tr))"

text \<open>
  The name under which \<^verbatim>\<open>apply_settings\<close> looks a child of the root up in the desired
  mapping: the text of its \<^verbatim>\<open>feature_name\<close> child, for a child with tag \<^verbatim>\<open>feature\<close> that
  has one with a text.
\<close>

definition feature_name :: "element \<Rightarrow> string option" where
  "feature_name f =
     (if tag f = ''feature''
      then (case find_text f ''feature_name'' of Inr (Some n) \<Rightarrow> Some n | _ \<Rightarrow> None)
      else None)"



text \<open>
  The name that one round of the loop of \<^verbatim>\<open>apply_settings\<close> adds to \<^verbatim>\<open>seen\<close> (if any), and
  \<^verbatim>\<open>seen\<close> after adding it.
\<close>

definition matched_name :: "(string, string option) dict \<Rightarrow> element \<Rightarrow> string option" where
  "matched_name h f =
     (case feature_name f of
        None \<Rightarrow> None
      | Some n \<Rightarrow> if n \<in> fst ` set h then Some n else None)"

definition see :: "string option \<Rightarrow> string list \<Rightarrow> string list" where
  "see m s = (case m of None \<Rightarrow> s | Some n \<Rightarrow> List.insert n s)"

section \<open>Example inputs\<close>

text \<open>
  A flat backend whose dump holds two sections and whose load command exits with
  status \<open>rc\<close>, and module parameters with the desired settings \<open>s\<close>.
\<close>

definition example_sections :: "(string, string option) dict" where
  "example_sections = [(''PowerMonitoring'', Some ''Enabled''), (''Turbo'', Some ''Enabled'')]"

definition example_conrep :: "int \<Rightarrow> conrep_backend" where
  "example_conrep rc =
     \<lparr>conrep_save = (0, [], []), conrep_dump = Inr example_sections,
      conrep_parse = (\<lambda>s. Inl (OtherError ''ParseError'')),
      conrep_load = (\<lambda>c. (rc, ''out'', ''err''))\<rparr>"

definition example_params ::
  "(string, string option) dict \<Rightarrow> string \<Rightarrow> bool \<Rightarrow> bool \<Rightarrow> params" where
  "example_params s x chk d =
     \<lparr>settings = s, settings_xml = x, facts = True, check_mode = chk, diff_mode = d,
      verbosity = 0\<rparr>"

text \<open>
  Features of a structured document: an option feature with the options
  (1, Enabled) and (2, Disabled) and option 1 selected, a string feature with a
  given id and value, and a feature whose \<^verbatim>\<open>feature_type\<close> is neither \<^verbatim>\<open>option\<close> nor
  \<^verbatim>\<open>string\<close>.
\<close>

definition feature_ht :: element where
  "feature_ht = Element ''feature''
     [(''feature_id'', Some ''10''), (''feature_type'', Some ''option''),
      (''selected_option_id'', Some ''1'')] None
     [Element ''feature_name'' [] (Some ''Hyperthreading'') [],
      Element ''option'' [(''option_id'', Some ''1'')] None
        [Element ''option_name'' [] (Some ''Enabled'') []],
      Element ''option'' [(''option_id'', Some ''2'')] None
        [Element ''option_name'' [] (Some ''Disabled'') []]]"

definition feature_asset :: "string \<Rightarrow> string \<Rightarrow> element" where
  "feature_asset fid v = Element ''feature''
     [(''feature_id'', Some fid), (''feature_type'', Some ''string'')] None
     [Element ''feature_name'' [] (Some ''Asset Tag'') [],
      Element ''feature_value'' [] (Some v) []]"

definition feature_odd :: element where
  "feature_odd = Element ''feature''
     [(''feature_id'', Some ''12''), (''feature_type'', Some ''numeric'')] None
     [Element ''feature_name'' [] (Some ''Fan Offset'') []]"

definition doc_of :: "element list \<Rightarrow> element" where
  "doc_of fs = Element ''hprcu'' [] None fs"

text \<open>
  A structured backend whose dump parses to \<open>old_doc\<close>, whose XML library parses every
  \<^verbatim>\<open>settings_xml\<close> text to \<open>candidate\<close> and serialises without error, and whose load
  command exits with status \<open>rc\<close>.
\<close>

definition example_hprcu :: "element \<Rightarrow> element \<Rightarrow> int \<Rightarrow> hprcu_backend" where
  "example_hprcu old_doc candidate rc =
     \<lparr>hprcu_save = (0, [], []), hprcu_dump = Inr old_doc,
      hprcu_fromstring = (\<lambda>s. Inr candidate),
      et_tostring = (\<lambda>e. Inr ''<feature/>''),
      doc_write = (\<lambda>e. Inr (if e = old_doc then ''<old/>'' else ''<new/>'')),
      hprcu_load = (\<lambda>c. (rc, ''out'', ''err''))\<rparr>"

section \<open>Properties of the flat adapter\<close>

lemma update_fresh: "k \<notin> fst ` set h \<Longrightarrow> AList.update k v h = h @ [(k, v)]"
  by (induction h) auto

lemma filter_changed_loop_eq:
  "distinct (map fst D) \<Longrightarrow> fst ` set D \<subseteq> fst ` set C \<Longrightarrow> fst ` set h \<inter> fst ` set D = {}
   \<Longrightarrow> filter_changed_loop C D h
       = Inr (h @ filter (\<lambda>kv. map_of C (fst kv) \<noteq> Some (snd kv)) D)"
proof (induction D arbitrary: h)
  case Nil
  then show ?case by simp
next
  case (Cons a D)
  obtain k v where a: "a = (k, v)" by (cases a)
  from Cons.prems a have kC: "k \<in> fst ` set C" by simp
  then obtain ov where ov: "map_of C k = Some ov"
    by (metis domD dom_map_of_conv_image_fst)
  from Cons.prems a have kh: "k \<notin> fst ` set h" by auto
  from Cons.prems a have kD: "k \<notin> fst ` set D" by auto
  have d: "distinct (map fst D)" and s: "fst ` set D \<subseteq> fst ` set C"
    using Cons.prems by auto
  show ?case
  proof (cases "v = ov")
    case True
    have "fst ` set h \<inter> fst ` set D = {}" using Cons.prems by auto
    from Cons.IH[OF d s this] True ov a show ?thesis by simp
  next
    case False
    have "fst ` set (h @ [(k, v)]) \<inter> fst ` set D = {}" using Cons.prems kD by auto
    from Cons.IH[OF d s this] False ov a kh show ?thesis by (simp add: update_fresh)
  qed
qed

lemma map_of_merge_dicts: "map_of (merge_dicts xs ys) = map_of xs ++ map_of (rev ys)"
  unfolding merge_dicts_def
proof (induction ys arbitrary: xs)
  case Nil
  then show ?case by simp
next
  case (Cons a ys)
  show ?case
    by (simp add: Cons.IH update_conv' map_add_def fun_eq_iff split: option.splits)
qed

lemma diff_loop_ok:
  "fst ` set s \<subseteq> fst ` set C \<Longrightarrow> \<exists>d. diff_loop C s bl al = Inr d"
proof (induction s arbitrary: bl al)
  case Nil
  then show ?case by simp
next
  case (Cons a s)
  obtain k v where a: "a = (k, v)" by (cases a)
  from Cons.prems a have "k \<in> fst ` set C" by simp
  then obtain ov where ov: "map_of C k = Some ov"
    by (metis domD dom_map_of_conv_image_fst)
  from Cons.prems have "fst ` set s \<subseteq> fst ` set C" by auto
  from Cons.IH[OF this] a ov show ?case by simp
qed

lemma diff_settings_ok:
  assumes "fst ` set s \<subseteq> fst ` set C"
  shows "\<exists>d. diff_settings C s = Inr d"
proof -
  from assms have "fst ` set (sort_key fst s) \<subseteq> fst ` set C" by simp
  from diff_loop_ok[OF this, of "[]" "[]"]
  obtain d where "diff_loop C (sort_key fst s) [] [] = Inr d" by blast
  then show ?thesis by (cases d) (simp add: diff_settings_def)
qed

lemma check_settings_ok: "fst ` set D \<subseteq> fst ` set C \<Longrightarrow> check_settings C D = Inr ()"
proof (induction D)
  case Nil
  then show ?case by simp
next
  case (Cons a D)
  obtain k v where a: "a = (k, v)" by (cases a)
  from Cons.prems a have "k \<in> fst ` set C" and "fst ` set D \<subseteq> fst ` set C" by auto
  with Cons.IH a show ?case by simp
qed

lemma merge_map_of:
  assumes d: "distinct (map fst D)" and s: "fst ` set D \<subseteq> fst ` set C"
  shows "map_of (merge_dicts C (filter (\<lambda>kv. map_of C (fst kv) \<noteq> Some (snd kv)) D))
           = map_of C ++ map_of D"
proof
  fix k
  let ?S = "filter (\<lambda>kv. map_of C (fst kv) \<noteq> Some (snd kv)) D"
  have dS: "distinct (map fst ?S)" using d by (simp add: distinct_map_filter)
  have dr: "distinct (map fst (rev ?S))" using dS by (simp add: rev_map[symmetric])
  have "map_of (rev ?S) = map_of ?S"
    by (rule map_of_inject_set[THEN iffD2]) (use dS dr in auto)
  then have m: "map_of (merge_dicts C ?S) k = (map_of C ++ map_of ?S) k"
    by (simp add: map_of_merge_dicts)
  show "map_of (merge_dicts C ?S) k = (map_of C ++ map_of D) k"
  proof (cases "map_of D k")
    case None
    then have "k \<notin> fst ` set D" by (simp add: map_of_eq_None_iff)
    then have "k \<notin> fst ` set ?S" by auto
    then have "map_of ?S k = None" by (simp add: map_of_eq_None_iff)
    with None m show ?thesis by (simp add: map_add_def)
  next
    case (Some v)
    then have kv: "(k, v) \<in> set D" by (rule map_of_SomeD)
    show ?thesis
    proof (cases "map_of C k = Some v")
      case True
      have "map_of ?S k = None"
      proof (cases "map_of ?S k")
        case None
        then show ?thesis .
      next
        case (Some w)
        then have "(k, w) \<in> set ?S" by (rule map_of_SomeD)
        then have "(k, w) \<in> set D" and neq: "map_of C k \<noteq> Some w" by auto
        with d kv have "w = v" by (meson eq_key_imp_eq_value)
        with neq True show ?thesis by simp
      qed
      with m True Some show ?thesis by (simp add: map_add_def)
    next
      case False
      with kv have "(k, v) \<in> set ?S" by simp
      with dS have "map_of ?S k = Some v" by simp
      with m Some show ?thesis by (simp add: map_add_def)
    qed
  qed
qed

text \<open>
  Claim C1. Let \<open>C\<close> be the current state and \<open>D\<close> the desired state, a dictionary whose
  keys all occur in \<open>C\<close>. Then \<^verbatim>\<open>filter_changed_settings(C, D)\<close> returns exactly the items
  \<open>(k, v)\<close> of \<open>D\<close> with \<open>v \<noteq> C[k]\<close>, in the order of \<open>D\<close>. In a run of the module that reads
  \<open>C\<close>, is given \<open>D\<close>, is asked for facts and whose load command (when one runs)
  succeeds, the facts reported are \<^verbatim>\<open>merge_dicts(C, changed subset)\<close>, and as a mapping
  this is \<open>C\<close> overridden by \<open>D\<close>.
\<close>

theorem changed_subset_and_facts:
  assumes "distinct (map fst D)" and "fst ` set D \<subseteq> fst ` set C"
    and "S = filter (\<lambda>kv. map_of C (fst kv) \<noteq> Some (snd kv)) D"
    and "(if settings_xml p \<noteq> [] then conrep_parse b (settings_xml p) else Inr (settings p))
           = Inr D"
    and "conrep_save b = (0, out, err)" and "conrep_dump b = Inr C"
    and "facts p"
    and "check_mode p \<or> fst (conrep_load b (conrep_dat S)) = 0"
  shows "filter_changed_settings C D = Inr S
    \<and> (\<exists>r tr. conrep_run_module b p = (ExitJson r, tr)
          \<and> ansible_facts r = Some (merge_dicts C S) \<and> changed r = (S \<noteq> []))
    \<and> map_of (merge_dicts C S) = map_of C ++ map_of D"
proof -
  have f: "filter_changed_settings C D = Inr S"
    using filter_changed_loop_eq[OF assms(1,2), of "[]"] assms(3)
    by (simp add: filter_changed_settings_def)
  have c: "check_settings C D = Inr ()" by (rule check_settings_ok[OF assms(2)])
  have r: "conrep_read_settings b = (Inr C, [Save])"
    using assms(5,6) by (simp add: conrep_read_settings_def call_conrep_def)
  have "fst ` set S \<subseteq> fst ` set C" using assms(2,3) by auto
  from diff_settings_ok[OF this] obtain d where d: "diff_settings C S = Inr d" by blast
  have "\<exists>t tr'. conrep_write_settings b S (check_mode p) (3 \<le> verbosity p) = (Inr t, tr')"
    using assms(8)
    by (cases "conrep_load b (conrep_dat S)")
       (auto simp: conrep_write_settings_def call_conrep_def Let_def)
  then obtain t tr'
    where w: "conrep_write_settings b S (check_mode p) (3 \<le> verbosity p) = (Inr t, tr')"
    by blast
  have a: "\<exists>r tr. conrep_apply b p C S res tr0 = (ExitJson r, tr)
          \<and> ansible_facts r = Some (merge_dicts C S)
          \<and> changed r = (if S \<noteq> [] then True else changed res)"
    for res :: "(string, string option) dict result" and tr0
    using w assms(7) by (simp add: conrep_apply_def conrep_finish_def)
  have run: "\<exists>r tr. conrep_run_module b p = (ExitJson r, tr)
          \<and> ansible_facts r = Some (merge_dicts C S) \<and> changed r = (S \<noteq> [])"
  proof (cases "diff_mode p")
    case True
    from a[of "result0\<lparr>diff := Some d\<rparr>" "[Save]"] True show ?thesis
      using assms(4) r c f d by (auto simp: conrep_run_module_def result0_def)
  next
    case False
    from a[of "result0" "[Save]"] False show ?thesis
      using assms(4) r c f by (auto simp: conrep_run_module_def result0_def)
  qed
  from merge_map_of[OF assms(1,2)] assms(3)
  have "map_of (merge_dicts C S) = map_of C ++ map_of D" by simp
  with f run show ?thesis by blast
qed

theorem changed_subset_and_facts_witness:
  "filter_changed_settings
      [(''PowerMonitoring'', Some ''Enabled''), (''Turbo'', Some ''Enabled'')]
      [(''PowerMonitoring'', Some ''Disabled'')]
    = Inr [(''PowerMonitoring'', Some ''Disabled'')]
   \<and> (\<exists>r tr. conrep_run_module
        \<lparr>conrep_save = (0, [], []),
         conrep_dump =
           Inr [(''PowerMonitoring'', Some ''Enabled''), (''Turbo'', Some ''Enabled'')],
         conrep_parse = (\<lambda>s. Inl (OtherError ''ParseError'')),
         conrep_load = (\<lambda>c. (0, [], []))\<rparr>
        \<lparr>settings = [(''PowerMonitoring'', Some ''Disabled'')], settings_xml = [],
         facts = True, check_mode = False, diff_mode = True, verbosity = 0\<rparr>
          = (ExitJson r, tr)
      \<and> ansible_facts r
          = Some [(''PowerMonitoring'', Some ''Disabled''), (''Turbo'', Some ''Enabled'')]
      \<and> changed r = True)"
  using changed_subset_and_facts [of "[(''PowerMonitoring'', Some ''Disabled'')]"
      "[(''PowerMonitoring'', Some ''Enabled''), (''Turbo'', Some ''Enabled'')]"
      "[(''PowerMonitoring'', Some ''Disabled'')]"
      "\<lparr>settings = [(''PowerMonitoring'', Some ''Disabled'')], settings_xml = [],
         facts = True, check_mode = False, diff_mode = True, verbosity = 0\<rparr>"
      "\<lparr>conrep_save = (0, [], []),
         conrep_dump =
           Inr [(''PowerMonitoring'', Some ''Enabled''), (''Turbo'', Some ''Enabled'')],
         conrep_parse = (\<lambda>s. Inl (OtherError ''ParseError'')),
         conrep_load = (\<lambda>c. (0, [], []))\<rparr>" "[]" "[]"]
  by (simp add: merge_dicts_def)




section \<open>Properties of the structured adapter\<close>

lemma matched_name_alt:
  "matched_name h f =
     (if tag f \<noteq> ''feature'' then None
      else (case find_text f ''feature_name'' of
              Inr (Some n) \<Rightarrow> if n \<in> fst ` set h then Some n else None
            | _ \<Rightarrow> None))"
  by (simp add: matched_name_def feature_name_def split: sum.splits option.splits)

lemma find_set_first_other:
  "t' \<noteq> t \<Longrightarrow> find (\<lambda>c. tag c = t') (set_first_text t v cs) = find (\<lambda>c. tag c = t') cs"
  by (induction cs) auto

lemma find_set_first_same:
  "find (\<lambda>c. tag c = t) (set_first_text t v cs)
     = map_option (\<lambda>c. Element (tag c) (attrib c) v (children c)) (find (\<lambda>c. tag c = t) cs)"
  by (induction cs) auto

lemma set_first_text_idem:
  "set_first_text t v (set_first_text t v cs) = set_first_text t v cs"
  by (induction cs) auto

lemma map_of_in_keys: "map_of h n = Some v \<Longrightarrow> n \<in> fst ` set h"
  by (metis domI dom_map_of_conv_image_fst)

lemma map_of_not_in_keys: "map_of h n = None \<Longrightarrow> n \<notin> fst ` set h"
  by (simp add: map_of_eq_None_iff)

lemma apply_feature_seen:
  assumes "apply_feature b h f c s = Inr (c', s', f')"
  shows "s' = see (matched_name h f) s"
  using assms
  by (auto simp: apply_feature_def matched_name_alt see_def map_of_in_keys map_of_not_in_keys
      split: if_splits sum.splits option.splits list.splits)

lemma el_get_el_set_same: "el_get (el_set f k v) k = v"
  by (simp add: el_get_def el_set_def update_conv')

lemma el_get_el_set_other: "k' \<noteq> k \<Longrightarrow> el_get (el_set f k v) k' = el_get f k'"
  by (simp add: el_get_def el_set_def update_conv')

lemma el_set_twice: "el_set (el_set f k v) k v = el_set f k v"
  by (simp add: el_set_def)

lemma find_text_el_set: "find_text (el_set f k v) t = find_text f t"
  by (simp add: find_text_def el_find_def el_set_def)

lemma apply_feature_again:
  assumes "apply_feature b h f c s = Inr (c', s', f')"
  shows "apply_feature b h f' c2 s2 = Inr (c2, see (matched_name h f) s2, f')"
proof (cases "tag f = ''feature''")
  case False
  with assms show ?thesis
    by (auto simp: apply_feature_def matched_name_alt see_def)
next
  case tf: True
  show ?thesis
  proof (cases "find_text f ''feature_name''")
    case (Inl e)
    with assms tf show ?thesis by (simp add: apply_feature_def)
  next
    case (Inr name)
    show ?thesis
    proof (cases name)
      case None
      with assms tf Inr show ?thesis
        by (auto simp: apply_feature_def matched_name_alt see_def)
    next
      case (Some n)
      show ?thesis
      proof (cases "map_of h n")
        case None
        with assms tf Inr Some show ?thesis
          by (auto simp: apply_feature_def matched_name_alt see_def map_of_not_in_keys)
      next
        case v: (Some v)
        have m: "matched_name h f = Some n"
          using tf Inr Some v by (simp add: matched_name_alt map_of_in_keys)
        show ?thesis
        proof (cases "el_get f ''feature_type'' = Some ''option''")
          case opt: True
          from assms tf Inr Some v opt obtain oid oids where
            o: "option_ids (children f) v = Inr (oid # oids)"
            and f': "f' = el_set f ''selected_option_id'' oid"
            by (auto simp: apply_feature_def split: sum.splits list.splits)
          have c1: "children f' = children f" and t1: "tag f' = tag f"
            using f' by (simp_all add: el_set_def)
          have ty: "el_get f' ''feature_type'' = Some ''option''"
            using f' opt by (simp add: el_get_el_set_other)
          have sel: "el_get f' ''selected_option_id'' = oid"
            using f' by (simp add: el_get_el_set_same)
          have ft: "find_text f' ''feature_name'' = Inr (Some n)"
            using f' Inr Some by (simp add: find_text_el_set)
          have again: "el_set f' ''selected_option_id'' oid = f'"
            using f' by (simp add: el_set_twice)
          show ?thesis
            using tf t1 ft v ty c1 o sel again m
            by (simp add: apply_feature_def see_def)
        next
          case nopt: False
          show ?thesis
          proof (cases "el_get f ''feature_type'' = Some ''string''")
            case str: True
            from assms tf Inr Some v nopt str obtain fv where
              fv: "el_find f ''feature_value'' = Some fv"
              and f': "f' = Element (tag f) (attrib f) (text_of f)
                         (set_first_text ''feature_value'' v (children f))"
              by (auto simp: apply_feature_def split: option.splits)
            have t1: "tag f' = tag f" using f' by simp
            have ty: "el_get f' ''feature_type'' = el_get f ''feature_type''"
              using f' by (simp add: el_get_def)
            have ft: "find_text f' ''feature_name'' = Inr (Some n)"
              using f' Inr Some
              by (simp add: find_text_def el_find_def find_set_first_other)
            have fv': "el_find f' ''feature_value''
                = Some (Element (tag fv) (attrib fv) v (children fv))"
              using f' fv by (simp add: el_find_def find_set_first_same)
            have again: "Element (tag f') (attrib f') (text_of f')
                         (set_first_text ''feature_value'' v (children f')) = f'"
              using f' by (simp add: set_first_text_idem)
            show ?thesis
              using tf t1 ft v ty nopt str fv' again m
              by (simp add: apply_feature_def see_def)
          next
            case False
            with assms tf Inr Some v nopt show ?thesis
              by (simp add: apply_feature_def)
          qed
        qed
      qed
    qed
  qed
qed

lemma apply_loop_seen:
  "apply_loop b h fs c s = (Inr (c', s'), fs')
   \<Longrightarrow> s' = fold (\<lambda>f. see (matched_name h f)) fs s"
proof (induction fs arbitrary: c s fs')
  case Nil
  then show ?case by simp
next
  case (Cons f fs)
  from Cons.prems obtain c1 s1 f1 where a: "apply_feature b h f c s = Inr (c1, s1, f1)"
    by (auto split: sum.splits)
  with Cons.prems obtain fs1 where l: "apply_loop b h fs c1 s1 = (Inr (c', s'), fs1)"
    by (auto split: prod.splits)
  from apply_feature_seen[OF a] Cons.IH[OF l] show ?case by simp
qed

lemma apply_loop_again:
  "apply_loop b h fs c s = (Inr (c', s'), fs')
   \<Longrightarrow> apply_loop b h fs' c2 s2 = (Inr (c2, fold (\<lambda>f. see (matched_name h f)) fs s2), fs')"
proof (induction fs arbitrary: c s fs' c2 s2)
  case Nil
  then show ?case by simp
next
  case (Cons f fs)
  from Cons.prems obtain c1 s1 f1 where a: "apply_feature b h f c s = Inr (c1, s1, f1)"
    by (auto split: sum.splits)
  with Cons.prems obtain fs1 where l: "apply_loop b h fs c1 s1 = (Inr (c', s'), fs1)"
    and fs': "fs' = f1 # fs1"
    by (auto split: prod.splits)
  from apply_feature_again[OF a] Cons.IH[OF l] fs' show ?case by simp
qed

text \<open>
  Claim C10. \<^verbatim>\<open>apply_settings\<close> is idempotent: when it returns (raising nothing) on a
  document and a desired mapping, leaving the edited document \<open>doc'\<close>, then applied to
  \<open>doc'\<close> with the same mapping it returns \<^verbatim>\<open>False\<close> and leaves \<open>doc'\<close> as it is.
\<close>

theorem apply_settings_idempotent:
  assumes "apply_settings b doc h = (Inr c, doc')"
  shows "apply_settings b doc' h = (Inr False, doc')"
proof -
  from assms obtain c0 seen fs where
    l: "apply_loop b h (children doc) False [] = (Inr (c0, seen), fs)"
    and len: "length seen = length h"
    and doc': "doc' = Element (tag doc) (attrib doc) (text_of doc) fs"
    by (auto simp: apply_settings_def split: prod.splits sum.splits if_splits)
  from apply_loop_seen[OF l] have s: "seen = fold (\<lambda>f. see (matched_name h f)) (children doc) []" .
  from apply_loop_again[OF l, of False "[]"] s
  have "apply_loop b h fs False [] = (Inr (False, seen), fs)" by simp
  with len doc' show ?thesis by (simp add: apply_settings_def)
qed










section \<open>Check mode\<close>

lemma conrep_fail_trace: "snd (conrep_fail e res tr) = tr"
  by (cases e) (simp_all add: conrep_fail_def)

lemma hprcu_fail_trace: "snd (hprcu_fail e res tr) = tr"
  by (cases e) (simp_all add: hprcu_fail_def)

lemma conrep_apply_check_trace:
  "snd (conrep_apply b (p\<lparr>check_mode := True\<rparr>) old s res tr) = tr"
  by (simp add: conrep_apply_def conrep_write_settings_def conrep_finish_def Let_def)

lemma conrep_apply_check_same:
  assumes "\<forall>c. Load c \<in> set (snd (conrep_apply b (p\<lparr>check_mode := False\<rparr>) old s res tr))
             \<longrightarrow> fst (conrep_load b c) = 0"
  shows "fst (conrep_apply b (p\<lparr>check_mode := True\<rparr>) old s res tr)
       = fst (conrep_apply b (p\<lparr>check_mode := False\<rparr>) old s res tr)"
proof (cases "s = []")
  case True
  then show ?thesis by (simp add: conrep_apply_def conrep_finish_def)
next
  case False
  obtain rc out err where l: "conrep_load b (conrep_dat s) = (rc, out, err)"
    by (cases "conrep_load b (conrep_dat s)")
  have "Load (conrep_dat s) \<in> set (snd (conrep_apply b (p\<lparr>check_mode := False\<rparr>) old s res tr))"
    using False
    by (auto simp: conrep_apply_def conrep_write_settings_def conrep_finish_def Let_def
        conrep_fail_trace split: sum.splits)
  with assms l have "rc = 0" by auto
  with False l show ?thesis
    by (simp add: conrep_apply_def conrep_write_settings_def conrep_finish_def Let_def
        call_conrep_def)
qed

lemma conrep_check_trace:
  "\<not> list_ex is_load (snd (conrep_run_module b (p\<lparr>check_mode := True\<rparr>)))"
  by (auto simp: conrep_run_module_def conrep_read_settings_def conrep_fail_trace
      conrep_apply_check_trace split: sum.splits prod.splits)

lemma conrep_check_same:
  assumes "\<forall>c. Load c \<in> set (snd (conrep_run_module b (p\<lparr>check_mode := False\<rparr>)))
             \<longrightarrow> fst (conrep_load b c) = 0"
  shows "fst (conrep_run_module b (p\<lparr>check_mode := True\<rparr>))
       = fst (conrep_run_module b (p\<lparr>check_mode := False\<rparr>))"
  using assms
  by (auto simp: conrep_run_module_def split: sum.splits prod.splits
      intro!: conrep_apply_check_same)



lemma hprcu_desired_check: "hprcu_desired b (p\<lparr>check_mode := x\<rparr>) old_doc = hprcu_desired b p old_doc"
  by (simp add: hprcu_desired_def split: sum.splits prod.splits)

lemma hprcu_fail_fst: "fst (hprcu_fail e res tr) = fst (hprcu_fail e res tr')"
  by (cases e) (simp_all add: hprcu_fail_def)

lemma hprcu_finish_fst:
  "fst (hprcu_finish (p\<lparr>check_mode := x\<rparr>) old_doc doc res tr)
     = fst (hprcu_finish (p\<lparr>check_mode := y\<rparr>) old_doc doc res tr')"
  by (simp add: hprcu_finish_def hprcu_fail_fst[of _ _ tr tr'] split: sum.splits)

lemma hprcu_finish_check:
  "hprcu_finish (p\<lparr>check_mode := x\<rparr>) old_doc doc res tr = hprcu_finish p old_doc doc res tr"
  by (simp add: hprcu_finish_def)

lemma hprcu_finish_trace: "snd (hprcu_finish p old_doc doc res tr) = tr"
  by (simp add: hprcu_finish_def hprcu_fail_trace split: sum.splits)

lemma hprcu_apply_check_trace:
  "snd (hprcu_apply b (p\<lparr>check_mode := True\<rparr>) old_doc doc c res tr) = tr"
  by (simp add: hprcu_apply_def hprcu_write_settings_def hprcu_finish_trace hprcu_fail_trace
      split: sum.splits option.splits)

lemma hprcu_apply_check_same:
  assumes "\<forall>f. Load f \<in> set (snd (hprcu_apply b (p\<lparr>check_mode := False\<rparr>) old_doc doc c res tr))
             \<longrightarrow> fst (hprcu_load b f) = 0"
  shows "fst (hprcu_apply b (p\<lparr>check_mode := True\<rparr>) old_doc doc c res tr)
       = fst (hprcu_apply b (p\<lparr>check_mode := False\<rparr>) old_doc doc c res tr)"
proof (cases c)
  case False
  then show ?thesis by (simp add: hprcu_apply_def hprcu_finish_check)
next
  case True
  show ?thesis
  proof (cases "doc2string b doc")
    case (Inl e)
    with True show ?thesis by (simp add: hprcu_apply_def hprcu_write_settings_def)
  next
    case (Inr f)
    obtain rc out err where l: "hprcu_load b f = (rc, out, err)"
      by (cases "hprcu_load b f")
    have w: "snd (hprcu_write_settings b doc False) = [Load f]"
      using Inr by (simp add: hprcu_write_settings_def)
    have "Load f \<in> set (snd (hprcu_apply b (p\<lparr>check_mode := False\<rparr>) old_doc doc c res tr))"
      using True w
      by (auto simp: hprcu_apply_def hprcu_finish_trace hprcu_fail_trace
          split: prod.splits sum.splits)
    with assms l have "rc = 0" by auto
    with True Inr l show ?thesis
      by (auto simp: hprcu_apply_def hprcu_write_settings_def call_hprcu_def
          split: sum.splits option.splits
          intro: hprcu_fail_fst hprcu_finish_fst)
  qed
qed

lemma hprcu_check_trace:
  "\<not> list_ex is_load (snd (hprcu_run_module b (p\<lparr>check_mode := True\<rparr>)))"
  by (auto simp: hprcu_run_module_def hprcu_read_settings_def hprcu_fail_trace
      hprcu_apply_check_trace hprcu_desired_check split: sum.splits prod.splits)

lemma hprcu_check_same:
  assumes "\<forall>f. Load f \<in> set (snd (hprcu_run_module b (p\<lparr>check_mode := False\<rparr>)))
             \<longrightarrow> fst (hprcu_load b f) = 0"
  shows "fst (hprcu_run_module b (p\<lparr>check_mode := True\<rparr>))
       = fst (hprcu_run_module b (p\<lparr>check_mode := False\<rparr>))"
  using assms
  by (auto simp: hprcu_run_module_def hprcu_desired_check split: sum.splits prod.splits
      intro!: hprcu_apply_check_same)

text \<open>
  Claim C9, as amended. In check mode neither adapter runs the load command. The
  outcome of a check-mode run (the result with its \<^verbatim>\<open>changed\<close> flag, diff and facts, the
  failure, or the uncaught exception) equals the outcome of the run without check mode
  on the same parameters and backend, provided every load command that the latter run
  issues exits with status 0. Nothing is said of runs whose load command fails.
\<close>

theorem check_mode_report:
  "\<not> list_ex is_load (snd (conrep_run_module cb (p\<lparr>check_mode := True\<rparr>)))
   \<and> \<not> list_ex is_load (snd (hprcu_run_module hb (p\<lparr>check_mode := True\<rparr>)))
   \<and> ((\<forall>f. Load f \<in> set (snd (conrep_run_module cb (p\<lparr>check_mode := False\<rparr>)))
            \<longrightarrow> fst (conrep_load cb f) = 0)
        \<longrightarrow> fst (conrep_run_module cb (p\<lparr>check_mode := True\<rparr>))
            = fst (conrep_run_module cb (p\<lparr>check_mode := False\<rparr>)))
   \<and> ((\<forall>f. Load f \<in> set (snd (hprcu_run_module hb (p\<lparr>check_mode := False\<rparr>)))
            \<longrightarrow> fst (hprcu_load hb f) = 0)
        \<longrightarrow> fst (hprcu_run_module hb (p\<lparr>check_mode := True\<rparr>))
            = fst (hprcu_run_module hb (p\<lparr>check_mode := False\<rparr>)))"
  using conrep_check_trace[of cb p] hprcu_check_trace[of hb p]
    conrep_check_same[of cb p] hprcu_check_same[of hb p]
  by blast


section \<open>The properties on the example inputs\<close>

lemmas ex_defs = hprcu_run_module_def hprcu_read_settings_def call_hprcu_def hprcu_desired_def
  apply_settings_def apply_feature_def find_text_def el_find_def el_get_def el_set_def
  doc_yield_changes_def doc2dict_def mk_diff_def doc2string_def hprcu_apply_def
  hprcu_write_settings_def hprcu_finish_def hprcu_fail_def doc2facts_def selected_option_name_def
  result0_def str_of_def unknown_features_msg_def
  feature_ht_def feature_asset_def feature_odd_def doc_of_def example_hprcu_def example_params_def


theorem apply_settings_idempotent_witness:
  "apply_settings (example_hprcu (doc_of [feature_ht]) (doc_of []) 0) (doc_of [feature_ht])
       [(''Hyperthreading'', Some ''Disabled'')]
     = (Inr True, doc_of [el_set feature_ht ''selected_option_id'' (Some ''2'')])
   \<and> apply_settings (example_hprcu (doc_of [feature_ht]) (doc_of []) 0)
       (doc_of [el_set feature_ht ''selected_option_id'' (Some ''2'')])
       [(''Hyperthreading'', Some ''Disabled'')]
     = (Inr False, doc_of [el_set feature_ht ''selected_option_id'' (Some ''2'')])"
proof -
  have a: "apply_settings (example_hprcu (doc_of [feature_ht]) (doc_of []) 0) (doc_of [feature_ht])
       [(''Hyperthreading'', Some ''Disabled'')]
     = (Inr True, doc_of [el_set feature_ht ''selected_option_id'' (Some ''2'')])"
    by (simp add: ex_defs)
  from apply_settings_idempotent[OF a] a show ?thesis by simp
qed

lemmas cex_defs = conrep_run_module_def conrep_read_settings_def call_conrep_def
  filter_changed_settings_def conrep_apply_def conrep_write_settings_def conrep_finish_def
  conrep_fail_def merge_dicts_def result0_def example_conrep_def example_sections_def
  example_params_def

theorem check_mode_report_witness:
  "fst (conrep_run_module (example_conrep 0)
          (example_params [(''Turbo'', Some ''Disabled'')] [] True False))
     = ExitJson \<lparr>changed = True,
          ansible_facts = Some [(''PowerMonitoring'', Some ''Enabled''), (''Turbo'', Some ''Disabled'')],
          diff = None, debug = None\<rparr>
   \<and> fst (conrep_run_module (example_conrep 0)
          (example_params [(''Turbo'', Some ''Disabled'')] [] False False))
     = ExitJson \<lparr>changed = True,
          ansible_facts = Some [(''PowerMonitoring'', Some ''Enabled''), (''Turbo'', Some ''Disabled'')],
          diff = None, debug = None\<rparr>
   \<and> snd (conrep_run_module (example_conrep 0)
          (example_params [(''Turbo'', Some ''Disabled'')] [] True False)) = [Save]
   \<and> fst (hprcu_run_module (example_hprcu (doc_of [feature_ht]) (doc_of []) 0)
          (example_params [(''Hyperthreading'', Some ''Disabled'')] [] True False))
     = fst (hprcu_run_module (example_hprcu (doc_of [feature_ht]) (doc_of []) 0)
          (example_params [(''Hyperthreading'', Some ''Disabled'')] [] False False))
   \<and> snd (hprcu_run_module (example_hprcu (doc_of [feature_ht]) (doc_of []) 0)
          (example_params [(''Hyperthreading'', Some ''Disabled'')] [] True False)) = [Save]
   \<and> snd (hprcu_run_module (example_hprcu (doc_of [feature_ht]) (doc_of []) 0)
          (example_params [(''Hyperthreading'', Some ''Disabled'')] [] False False))
     = [Save, Load ''<new/>'']"
proof -
  have c: "conrep_run_module (example_conrep 0)
          (example_params [(''Turbo'', Some ''Disabled'')] [] True False)
     = (ExitJson \<lparr>changed = True,
          ansible_facts = Some [(''PowerMonitoring'', Some ''Enabled''), (''Turbo'', Some ''Disabled'')],
          diff = None, debug = None\<rparr>, [Save])"
    by (simp add: cex_defs)
  have cl: "fst (conrep_load (example_conrep 0) f) = 0" for f
    by (simp add: example_conrep_def)
  have hl: "fst (hprcu_load (example_hprcu (doc_of [feature_ht]) (doc_of []) 0) f) = 0" for f
    by (simp add: example_hprcu_def)
  have u: "(example_params s x chk d)\<lparr>check_mode := y\<rparr> = example_params s x y d" for s x chk d y
    by (simp add: example_params_def)
  have h1: "snd (hprcu_run_module (example_hprcu (doc_of [feature_ht]) (doc_of []) 0)
          (example_params [(''Hyperthreading'', Some ''Disabled'')] [] True False)) = [Save]"
    by (simp add: ex_defs)
  have h2: "snd (hprcu_run_module (example_hprcu (doc_of [feature_ht]) (doc_of []) 0)
          (example_params [(''Hyperthreading'', Some ''Disabled'')] [] False False))
     = [Save, Load ''<new/>'']"
    by (simp add: ex_defs)
  from check_mode_report[of "example_conrep 0"
      "example_params [(''Turbo'', Some ''Disabled'')] [] True False"
      "example_hprcu (doc_of [feature_ht]) (doc_of []) 0"]
    check_mode_report[of "example_conrep 0"
      "example_params [(''Hyperthreading'', Some ''Disabled'')] [] True False"
      "example_hprcu (doc_of [feature_ht]) (doc_of []) 0"]
  show ?thesis using c cl hl h1 h2 by (simp add: u)
qed

lemma str_int_1: "str_int 1 = ''1''"
  by code_simp

text \<open>
  Claim C9 as stated fails at this input of the flat adapter: the load command exits
  with status 1, the check-mode run reports \<^verbatim>\<open>changed = True\<close>, and the run without
  check mode on the same parameters ends in \<^verbatim>\<open>fail_json\<close> with \<^verbatim>\<open>changed = False\<close>.
\<close>

theorem check_mode_report_counterexample:
  "fst (conrep_run_module (example_conrep 1)
          (example_params [(''Turbo'', Some ''Disabled'')] [] True False))
     = ExitJson \<lparr>changed = True,
          ansible_facts = Some [(''PowerMonitoring'', Some ''Enabled''), (''Turbo'', Some ''Disabled'')],
          diff = None, debug = None\<rparr>
   \<and> fst (conrep_run_module (example_conrep 1)
          (example_params [(''Turbo'', Some ''Disabled'')] [] False False))
     = FailJson ''Conrep failed (rc=1): out err''
         \<lparr>changed = False, ansible_facts = None, diff = None, debug = None\<rparr>"
  by (simp add: cex_defs str_int_1)

text \<open>
  Claim C2, failing input. The old document has one string feature with id 11; the
  document given as \<^verbatim>\<open>settings_xml\<close> changes it and also has a feature with id 99 that
  the old document lacks. \<^verbatim>\<open>doc_yield_changes\<close> returns at the first difference, before
  it reaches id 99, and the run issues the load command.
\<close>

theorem raw_document_unknown_id_is_loaded:
  "hprcu_run_module
       (example_hprcu (doc_of [feature_asset ''11'' ''abc''])
          (doc_of [feature_asset ''11'' ''xyz'', feature_asset ''99'' ''q'']) 0)
       (example_params [] ''<hprcu/>'' False False)
    = (ExitJson \<lparr>changed = True,
         ansible_facts = Some [(Some ''Asset Tag'', Some ''q'')],
         diff = None, debug = None\<rparr>, [Save, Load ''<new/>''])"
  by (simp add: ex_defs)

text \<open>
  Claim C3, failing input. The desired value \<^verbatim>\<open>Off\<close> is the name of no option of the
  feature: \<^verbatim>\<open>apply_settings\<close> raises \<^verbatim>\<open>NameError\<close> (the name \<^verbatim>\<open>HprcuErrror\<close> is not
  defined), which \<^verbatim>\<open>run_module\<close> does not catch.
\<close>

theorem unknown_option_value_raises_name_error:
  "apply_settings (example_hprcu (doc_of [feature_ht]) (doc_of []) 0)
      (doc_of [feature_ht]) [(''Hyperthreading'', Some ''Off'')]
    = (Inl (NameError ''HprcuErrror''), doc_of [feature_ht])
  \<and> hprcu_run_module (example_hprcu (doc_of [feature_ht]) (doc_of []) 0)
       (example_params [(''Hyperthreading'', Some ''Off'')] [] False False)
    = (Raised (NameError ''HprcuErrror''), [Save])"
  by (simp add: ex_defs)

text \<open>
  Claim C4, failing input. The feature named in the desired mapping has the
  \<^verbatim>\<open>feature_type\<close> \<^verbatim>\<open>numeric\<close>: \<^verbatim>\<open>apply_settings\<close> raises \<^verbatim>\<open>NameError\<close> (the name \<^verbatim>\<open>n\<close> is
  not defined) while it builds the message, and \<^verbatim>\<open>run_module\<close> does not catch it.
\<close>

theorem unknown_feature_type_raises_name_error:
  "apply_settings (example_hprcu (doc_of [feature_odd]) (doc_of []) 0)
      (doc_of [feature_odd]) [(''Fan Offset'', Some ''3'')]
    = (Inl (NameError ''n''), doc_of [feature_odd])
  \<and> hprcu_run_module (example_hprcu (doc_of [feature_odd]) (doc_of []) 0)
       (example_params [(''Fan Offset'', Some ''3'')] [] False False)
    = (Raised (NameError ''n''), [Save])"
  by (simp add: ex_defs)

text \<open>
  Claim C5, failing input. With neither \<^verbatim>\<open>settings\<close> nor \<^verbatim>\<open>settings_xml\<close> and a diff
  requested, \<^verbatim>\<open>mk_diff\<close> is given \<^verbatim>\<open>None\<close> for the new document and \<^verbatim>\<open>doc2string\<close> raises
  \<^verbatim>\<open>AttributeError\<close>, which \<^verbatim>\<open>run_module\<close> does not catch. Without the diff the same run
  ends normally.
\<close>

theorem diff_without_settings_raises:
  "hprcu_run_module (example_hprcu (doc_of [feature_ht]) (doc_of []) 0)
       (example_params [] [] False True)
    = (Raised (AttributeError ''write''), [Save])
  \<and> hprcu_run_module (example_hprcu (doc_of [feature_ht]) (doc_of []) 0)
       (example_params [] [] False False)
    = (ExitJson \<lparr>changed = False,
         ansible_facts = Some [(Some ''Hyperthreading'', Some ''Enabled'')],
         diff = None, debug = None\<rparr>, [Save])"
  by (simp add: ex_defs)

text \<open>
  Claim C6, failing input. The candidate document has the feature id 99, absent from
  the old document. When a differing shared id comes first, \<^verbatim>\<open>doc_yield_changes\<close>
  returns \<^verbatim>\<open>True\<close> and raises nothing; with the two features in the other order it
  raises \<open>HprcuError\<close>.
\<close>

theorem yield_changes_returns_before_unknown_id:
  "doc_yield_changes (doc_of [feature_asset ''11'' ''abc''])
       (doc_of [feature_asset ''11'' ''xyz'', feature_asset ''99'' ''q''])
    = Inr True
  \<and> doc_yield_changes (doc_of [feature_asset ''11'' ''abc''])
       (doc_of [feature_asset ''99'' ''q'', feature_asset ''11'' ''xyz''])
    = Inl (HprcuError ''Feature 99 not known by this hprcu'')"
  by (simp add: ex_defs)

end
